theory Spec2Isabelle
  imports Complex_Main
begin

section \<open>Values exchanged with the remote service\<close>

text \<open>
  The scripts of \<^verbatim>\<open>launcher-checker.ts\<close> talk to a GraphQL endpoint through \<^verbatim>\<open>fetch\<close>
  and read the parsed JSON body with property accesses. A value of the running program is
  one of JavaScript's values as far as \<^verbatim>\<open>JSON.parse\<close> produces them, plus \<^verbatim>\<open>undefined\<close>
  (the result of reading a missing property). An object is the list of its own
  properties, each name once, as \<^verbatim>\<open>JSON.parse\<close> leaves them; the numeric payload is never
  inspected by the code except for truthiness.
\<close>

datatype jsvalue =
    JUndefined
  | JNull
  | JBool bool
  | JNum int
  | JStr string
  | JArr "jsvalue list"
  | JObj "(string \<times> jsvalue) list"

text \<open>What a \<^verbatim>\<open>try\<close> block can catch: the errors the three functions can raise.\<close>

datatype js_error =
    FetchFailed string
  | HttpError int
  | JsonSyntaxError string
  | TypeError string
  | MissingScanID

text \<open>
  One answer of the remote collaborator to one \<^verbatim>\<open>fetch\<close>: the request fails in
  transport (\<^verbatim>\<open>fetch\<close> rejects), or a response with a status code arrives whose body
  \<^verbatim>\<open>response.json()\<close> either rejects or parses.
\<close>

datatype body = Unparsable string | Parsed jsvalue

datatype response = NetworkError string | HttpResponse int body

text \<open>\<^verbatim>\<open>response.ok\<close>: the status is in the range 200-299.\<close>

definition response_ok :: "int \<Rightarrow> bool" where
  "response_ok code = (200 \<le> code \<and> code \<le> 299)"

text \<open>
  \<^verbatim>\<open>v.k\<close> for the property names the scripts read (\<^verbatim>\<open>data\<close>, \<^verbatim>\<open>getScannedAppsInfo\<close>,
  \<^verbatim>\<open>isStillScanning\<close>, \<^verbatim>\<open>checkScanInProgress\<close>, \<^verbatim>\<open>isInProgress\<close>, \<^verbatim>\<open>scanAll\<close>,
  \<^verbatim>\<open>scanID\<close>; none of them is inherited by a boolean, number, string or array): reading a
  property of \<^verbatim>\<open>null\<close> or \<^verbatim>\<open>undefined\<close> raises a TypeError, a missing property is
  \<^verbatim>\<open>undefined\<close>.
\<close>

fun get_prop :: "jsvalue \<Rightarrow> string \<Rightarrow> js_error + jsvalue" where
  "get_prop JUndefined k = Inl (TypeError k)"
| "get_prop JNull k = Inl (TypeError k)"
| "get_prop (JObj kvs) k = Inr (case map_of kvs k of None \<Rightarrow> JUndefined | Some v \<Rightarrow> v)"
| "get_prop v k = Inr JUndefined"

text \<open>\<^verbatim>\<open>v?.k\<close>: \<^verbatim>\<open>undefined\<close> when \<^verbatim>\<open>v\<close> is \<^verbatim>\<open>null\<close> or \<^verbatim>\<open>undefined\<close>, never an error.\<close>

fun opt_prop :: "jsvalue \<Rightarrow> string \<Rightarrow> jsvalue" where
  "opt_prop JUndefined k = JUndefined"
| "opt_prop JNull k = JUndefined"
| "opt_prop (JObj kvs) k = (case map_of kvs k of None \<Rightarrow> JUndefined | Some v \<Rightarrow> v)"
| "opt_prop v k = JUndefined"

text \<open>\<^verbatim>\<open>v ?? d\<close>.\<close>

fun nullish :: "jsvalue \<Rightarrow> jsvalue \<Rightarrow> jsvalue" where
  "nullish JUndefined d = d"
| "nullish JNull d = d"
| "nullish v d = v"

text \<open>Truthiness, as \<^verbatim>\<open>if (v)\<close> and \<^verbatim>\<open>!v\<close> test it.\<close>

fun truthy :: "jsvalue \<Rightarrow> bool" where
  "truthy JUndefined = False"
| "truthy JNull = False"
| "truthy (JBool b) = b"
| "truthy (JNum n) = (n \<noteq> 0)"
| "truthy (JStr s) = (s \<noteq> [])"
| "truthy v = True"

section \<open>The active-job gate: \<^verbatim>\<open>checkScanInProgress\<close>\<close>

text \<open>
  The body of the \<^verbatim>\<open>try\<close> block (lines 46-66): \<^verbatim>\<open>fetch\<close>, the \<^verbatim>\<open>response.ok\<close> test,
  \<^verbatim>\<open>response.json()\<close> and \<^verbatim>\<open>data.data?.checkScanInProgress?.isInProgress\<close>, whose value
  is returned as it is. \<open>Inl\<close> is a raised error.
\<close>

definition checkScanInProgress_try :: "response \<Rightarrow> js_error + jsvalue" where
  "checkScanInProgress_try fetched =
     (case fetched of
        NetworkError msg \<Rightarrow> Inl (FetchFailed msg)
      | HttpResponse code b \<Rightarrow>
          if \<not> response_ok code then Inl (HttpError code)
          else (case b of
                  Unparsable msg \<Rightarrow> Inl (JsonSyntaxError msg)
                | Parsed data \<Rightarrow>
                    (case get_prop data ''data'' of
                       Inl e \<Rightarrow> Inl e
                     | Inr d \<Rightarrow>
                         Inr (opt_prop (opt_prop d ''checkScanInProgress'') ''isInProgress''))))"

text \<open>The \<^verbatim>\<open>catch\<close> block (lines 67-71) returns \<^verbatim>\<open>true\<close> for every error caught.\<close>

definition checkScanInProgress :: "response \<Rightarrow> jsvalue" where
  "checkScanInProgress fetched =
     (case checkScanInProgress_try fetched of
        Inl e \<Rightarrow> JBool True
      | Inr isInProgress \<Rightarrow> isInProgress)"

section \<open>Starting a scan: \<^verbatim>\<open>initiateScanning\<close>\<close>

text \<open>No \<^verbatim>\<open>try\<close> here: every error reaches the caller.\<close>

definition initiateScanning :: "response \<Rightarrow> js_error + jsvalue" where
  "initiateScanning fetched =
     (case fetched of
        NetworkError msg \<Rightarrow> Inl (FetchFailed msg)
      | HttpResponse code b \<Rightarrow>
          if \<not> response_ok code then Inl (HttpError code)
          else (case b of
                  Unparsable msg \<Rightarrow> Inl (JsonSyntaxError msg)
                | Parsed data \<Rightarrow>
                    (case get_prop data ''data'' of
                       Inl e \<Rightarrow> Inl e
                     | Inr d \<Rightarrow>
                         (let scanID = opt_prop (opt_prop d ''scanAll'') ''scanID''
                          in if \<not> truthy scanID then Inl MissingScanID else Inr scanID))))"

section \<open>One status probe: \<^verbatim>\<open>checkScanningStatus\<close>\<close>

record status_result =
  isStillScanning :: jsvalue
  error :: "js_error option"

text \<open>
  The remote's answer may depend on the job identifier sent in the query variables, so
  the collaborator of one probe is a function of the identifier. The \<^verbatim>\<open>try\<close> block
  (lines 126-147) evaluates \<^verbatim>\<open>data.data.getScannedAppsInfo?.isStillScanning ?? null\<close>: two
  plain property reads, one optional read, one default.
\<close>

definition checkScanningStatus_try :: "(jsvalue \<Rightarrow> response) \<Rightarrow> jsvalue \<Rightarrow> js_error + status_result" where
  "checkScanningStatus_try fetch scanID =
     (case fetch scanID of
        NetworkError msg \<Rightarrow> Inl (FetchFailed msg)
      | HttpResponse code b \<Rightarrow>
          if \<not> response_ok code then Inl (HttpError code)
          else (case b of
                  Unparsable msg \<Rightarrow> Inl (JsonSyntaxError msg)
                | Parsed data \<Rightarrow>
                    (case get_prop data ''data'' of
                       Inl e \<Rightarrow> Inl e
                     | Inr d \<Rightarrow>
                         (case get_prop d ''getScannedAppsInfo'' of
                            Inl e \<Rightarrow> Inl e
                          | Inr info \<Rightarrow>
                              Inr \<lparr>isStillScanning = nullish (opt_prop info ''isStillScanning'') JNull,
                                   error = None\<rparr>))))"

text \<open>
  The \<^verbatim>\<open>catch\<close> block (lines 148-154) turns every error into a result with
  \<^verbatim>\<open>isStillScanning: null\<close> and the error in the \<^verbatim>\<open>error\<close> field (the source keeps the
  error's message; the model keeps the error).
\<close>

definition checkScanningStatus :: "(jsvalue \<Rightarrow> response) \<Rightarrow> jsvalue \<Rightarrow> status_result" where
  "checkScanningStatus fetch scanID =
     (case checkScanningStatus_try fetch scanID of
        Inl e \<Rightarrow> \<lparr>isStillScanning = JNull, error = Some e\<rparr>
      | Inr r \<Rightarrow> r)"

section \<open>The polling loop: \<^verbatim>\<open>pollUntilScanComplete\<close>\<close>

record poll_result =
  success :: bool
  status :: string

definition Completed :: poll_result where
  "Completed = \<lparr>success = True, status = ''completed''\<rparr>"

definition Cancelled :: poll_result where
  "Cancelled = \<lparr>success = False, status = ''cancelled''\<rparr>"

definition InitializationTimeout :: poll_result where
  "InitializationTimeout = \<lparr>success = False, status = ''initialization_timeout''\<rparr>"

definition MaxAttemptsReached :: poll_result where
  "MaxAttemptsReached = \<lparr>success = False, status = ''max_attempts_reached''\<rparr>"

text \<open>
  The three parameters are JavaScript Numbers; the model takes the integer-valued ones
  (of magnitude below \<open>2^53\<close>, where the quotient computed in double precision has the
  same ceiling as the exact quotient), zero and negative ones included. A fractional or
  infinite parameter is outside the model. \<^verbatim>\<open>Math.ceil(initializationTimeoutMs / intervalMs)\<close>
  is then an integer, or, when \<^verbatim>\<open>intervalMs\<close> is 0, one of \<^verbatim>\<open>Infinity\<close>, \<^verbatim>\<open>-Infinity\<close> and
  \<^verbatim>\<open>NaN\<close>.
\<close>

datatype js_number = Finite int | PosInfinity | NegInfinity | NotANumber

definition maxConsecutiveNullResponses :: "int \<Rightarrow> int \<Rightarrow> js_number" where
  "maxConsecutiveNullResponses initializationTimeoutMs intervalMs =
     (if intervalMs = 0 then
        (if 0 < initializationTimeoutMs then PosInfinity
         else if initializationTimeoutMs < 0 then NegInfinity
         else NotANumber)
      else Finite \<lceil>real_of_int initializationTimeoutMs / real_of_int intervalMs\<rceil>)"

text \<open>\<^verbatim>\<open>n >= m\<close> for a counter \<open>n\<close>: false against \<^verbatim>\<open>Infinity\<close> and \<^verbatim>\<open>NaN\<close>.\<close>

fun number_ge :: "nat \<Rightarrow> js_number \<Rightarrow> bool" where
  "number_ge n (Finite m) = (m \<le> int n)"
| "number_ge n PosInfinity = False"
| "number_ge n NegInfinity = True"
| "number_ge n NotANumber = False"

text \<open>
  The local variables of the loop, and \<open>probes\<close>: the number of status queries sent so
  far, which is the position in the sequence of the remote's answers (the \<open>k\<close>-th query,
  counted from 0, is answered by \<open>remote k\<close>). The source returns only the
  \<open>poll_result\<close>; the model returns the final values of the variables with it.
\<close>

record poll_state =
  attempts :: nat
  consecutiveNullResponses :: nat
  scanStarted :: bool
  probes :: nat

definition initial_state :: poll_state where
  "initial_state = \<lparr>attempts = 0, consecutiveNullResponses = 0, scanStarted = False, probes = 0\<rparr>"

text \<open>
  One pass through the body of the \<^verbatim>\<open>while\<close> loop (lines 172-208): \<open>Some r\<close> is
  \<^verbatim>\<open>return r\<close>, \<open>None\<close> is reaching the wait at the end of the body. The wait and the
  log lines change no variable.
\<close>

definition poll_iteration ::
  "(nat \<Rightarrow> jsvalue \<Rightarrow> response) \<Rightarrow> jsvalue \<Rightarrow> js_number \<Rightarrow> poll_state \<Rightarrow> poll_result option \<times> poll_state" where
  "poll_iteration remote scanID maxNull st =
     (let st1 = st\<lparr>attempts := attempts st + 1\<rparr>;
          statusResult = checkScanningStatus (remote (probes st1)) scanID;
          st2 = st1\<lparr>probes := probes st1 + 1\<rparr>
      in if isStillScanning statusResult = JNull then
           (let st3 = st2\<lparr>consecutiveNullResponses := consecutiveNullResponses st2 + 1\<rparr>
            in if scanStarted st3 then (Some Cancelled, st3)
               else if number_ge (consecutiveNullResponses st3) maxNull
                 then (Some InitializationTimeout, st3)
               else (None, st3))
         else if isStillScanning statusResult = JBool False then (Some Completed, st2)
         else (None, st2\<lparr>scanStarted := True, consecutiveNullResponses := 0\<rparr>))"

text \<open>The \<^verbatim>\<open>while (attempts < maxAttempts)\<close> loop and the \<^verbatim>\<open>return\<close> after it (line 211).\<close>

function poll_loop ::
  "(nat \<Rightarrow> jsvalue \<Rightarrow> response) \<Rightarrow> jsvalue \<Rightarrow> int \<Rightarrow> js_number \<Rightarrow> poll_state \<Rightarrow> poll_result \<times> poll_state" where
  "poll_loop remote scanID maxAttempts maxNull st =
     (if int (attempts st) < maxAttempts then
        (case poll_iteration remote scanID maxNull st of
           (Some r, st') \<Rightarrow> (r, st')
         | (None, st') \<Rightarrow> poll_loop remote scanID maxAttempts maxNull st')
      else (MaxAttemptsReached, st))"
  by pat_completeness auto
termination
  apply (relation "measure (\<lambda>(remote, scanID, maxAttempts, maxNull, st). nat (maxAttempts - int (attempts st)))")
   apply simp
  apply (auto simp: poll_iteration_def Let_def split: if_splits)
  done

declare poll_loop.simps [simp del]

definition pollUntilScanComplete ::
  "(nat \<Rightarrow> jsvalue \<Rightarrow> response) \<Rightarrow> jsvalue \<Rightarrow> int \<Rightarrow> int \<Rightarrow> int \<Rightarrow> poll_result \<times> poll_state" where
  "pollUntilScanComplete remote scanID maxAttempts intervalMs initializationTimeoutMs =
     poll_loop remote scanID maxAttempts
       (maxConsecutiveNullResponses initializationTimeoutMs intervalMs) initial_state"

section \<open>The caller: \<^verbatim>\<open>main\<close>\<close>

text \<open>
  The remote collaborator of a whole run: its answer to the gate query, to the start
  mutation, and to each status query. \<^verbatim>\<open>main\<close> returns nothing; the model returns which
  of its paths was taken.
\<close>

record world =
  gate_response :: response
  start_response :: response
  status_responses :: "nat \<Rightarrow> jsvalue \<Rightarrow> response"

datatype main_path =
    RefusedToStart
  | ProcessFailed js_error
  | Polled jsvalue poll_result

definition main :: "world \<Rightarrow> int \<Rightarrow> int \<Rightarrow> int \<Rightarrow> main_path" where
  "main w maxAttempts intervalMs initializationTimeoutMs =
     (let scanInProgress = checkScanInProgress (gate_response w)
      in if truthy scanInProgress then RefusedToStart
         else (case initiateScanning (start_response w) of
                 Inl e \<Rightarrow> ProcessFailed e
               | Inr scanID \<Rightarrow>
                   Polled scanID
                     (fst (pollUntilScanComplete (status_responses w) scanID
                             maxAttempts intervalMs initializationTimeoutMs))))"

section \<open>Observations and scripted sessions\<close>

text \<open>
  The three-way classification the loop applies to a probe's result (lines 178, 196, 201):
  \<^verbatim>\<open>=== null\<close>, then \<^verbatim>\<open>=== false\<close>, then everything else.
\<close>

datatype observation = Running | Finished | Indeterminate

definition observation_of :: "status_result \<Rightarrow> observation" where
  "observation_of r =
     (if isStillScanning r = JNull then Indeterminate
      else if isStillScanning r = JBool False then Finished
      else Running)"

text \<open>The observation the \<open>k\<close>-th probe of a session yields, and the first \<open>n\<close> of them.\<close>

definition observed :: "(nat \<Rightarrow> jsvalue \<Rightarrow> response) \<Rightarrow> jsvalue \<Rightarrow> nat \<Rightarrow> observation" where
  "observed remote scanID k = observation_of (checkScanningStatus (remote k) scanID)"

definition observations :: "(nat \<Rightarrow> jsvalue \<Rightarrow> response) \<Rightarrow> jsvalue \<Rightarrow> nat \<Rightarrow> observation list" where
  "observations remote scanID n = map (observed remote scanID) [0..<n]"

text \<open>The length of the longest suffix made of \<open>Indeterminate\<close> only.\<close>

definition null_suffix :: "observation list \<Rightarrow> nat" where
  "null_suffix os = length (takeWhile (\<lambda>ob. ob = Indeterminate) (rev os))"

text \<open>
  Remotes for concrete sessions: one that plays a fixed script (a well-formed answer for
  each observation of the script, and a transport failure once the script is over), and
  one that gives the same answer whatever the identifier.
\<close>

definition status_body :: "jsvalue \<Rightarrow> response" where
  "status_body info = HttpResponse 200 (Parsed (JObj [(''data'', JObj [(''getScannedAppsInfo'', info)])]))"

fun answer :: "observation \<Rightarrow> response" where
  "answer Running = status_body (JObj [(''isStillScanning'', JBool True)])"
| "answer Finished = status_body (JObj [(''isStillScanning'', JBool False)])"
| "answer Indeterminate = status_body JNull"

definition always :: "response \<Rightarrow> jsvalue \<Rightarrow> response" where
  "always r scanID = r"

definition scripted :: "observation list \<Rightarrow> nat \<Rightarrow> jsvalue \<Rightarrow> response" where
  "scripted os k scanID = (if k < length os then answer (os ! k) else NetworkError ''unreachable'')"

text \<open>
  Plain lookup of a path of property names in a parsed body: \<open>None\<close> when some name on
  the path is missing or the value reached before the end of the path is not an object.
\<close>

fun json_path :: "jsvalue \<Rightarrow> string list \<Rightarrow> jsvalue option" where
  "json_path v [] = Some v"
| "json_path (JObj kvs) (k # ks) = (case map_of kvs k of None \<Rightarrow> None | Some v \<Rightarrow> json_path v ks)"
| "json_path v (k # ks) = None"

text \<open>
  Two concrete answers of the remote: a GraphQL error reply (HTTP 200, an \<^verbatim>\<open>errors\<close> list
  and \<^verbatim>\<open>data: null\<close>), and the reply to the start mutation that carries a job identifier.
\<close>

definition graphql_error_response :: response where
  "graphql_error_response =
     HttpResponse 200 (Parsed (JObj [(''errors'', JArr [JObj [(''message'', JStr ''Unauthorized'')]]),
                                     (''data'', JNull)]))"

definition scan_started_response :: "jsvalue \<Rightarrow> response" where
  "scan_started_response scanID =
     HttpResponse 200 (Parsed (JObj [(''data'', JObj [(''scanAll'', JObj [(''scanID'', scanID)])])]))"

section \<open>The loop: basic facts and an invariant rule\<close>

lemma poll_iteration_attempts:
  "poll_iteration remote scanID maxNull st = (r, st') \<Longrightarrow> attempts st' = attempts st + 1"
  by (auto simp: poll_iteration_def Let_def split: if_splits)

text \<open>The body of the loop, read through the classification of the probe's result.\<close>

lemma poll_iteration_observed:
  "poll_iteration remote scanID maxNull st =
     (case observed remote scanID (probes st) of
        Indeterminate \<Rightarrow>
          (if scanStarted st then Some Cancelled
           else if number_ge (consecutiveNullResponses st + 1) maxNull then Some InitializationTimeout
           else None,
           st\<lparr>attempts := attempts st + 1, probes := probes st + 1,
              consecutiveNullResponses := consecutiveNullResponses st + 1\<rparr>)
      | Finished \<Rightarrow> (Some Completed, st\<lparr>attempts := attempts st + 1, probes := probes st + 1\<rparr>)
      | Running \<Rightarrow>
          (None, st\<lparr>attempts := attempts st + 1, probes := probes st + 1,
                    scanStarted := True, consecutiveNullResponses := 0\<rparr>))"
  by (simp add: poll_iteration_def observed_def observation_of_def Let_def)

text \<open>
  An invariant rule for the loop: an assertion \<open>I\<close> that holds at the loop head and is
  kept by every pass that reaches the wait gives \<open>Q\<close> for the value returned, when \<open>Q\<close>
  holds at each \<^verbatim>\<open>return\<close> inside the body and at the exit of the loop.
\<close>

lemma poll_loop_rule:
  assumes init: "I st"
    and step: "\<And>s s'. I s \<Longrightarrow> int (attempts s) < maxAttempts \<Longrightarrow>
                 poll_iteration remote scanID maxNull s = (None, s') \<Longrightarrow> I s'"
    and ret: "\<And>s r s'. I s \<Longrightarrow> int (attempts s) < maxAttempts \<Longrightarrow>
                 poll_iteration remote scanID maxNull s = (Some r, s') \<Longrightarrow> Q r s'"
    and exit: "\<And>s. I s \<Longrightarrow> \<not> int (attempts s) < maxAttempts \<Longrightarrow> Q MaxAttemptsReached s"
  shows "Q (fst (poll_loop remote scanID maxAttempts maxNull st))
           (snd (poll_loop remote scanID maxAttempts maxNull st))"
  using init
proof (induction "nat (maxAttempts - int (attempts st))" arbitrary: st rule: less_induct)
  case less
  show ?case
  proof (cases "int (attempts st) < maxAttempts")
    case False
    with less.prems exit show ?thesis
      by (subst (1 2) poll_loop.simps) simp
  next
    case True
    obtain r s' where it: "poll_iteration remote scanID maxNull st = (r, s')"
      by (cases "poll_iteration remote scanID maxNull st")
    show ?thesis
    proof (cases r)
      case None
      from it have a: "attempts s' = attempts st + 1"
        by (rule poll_iteration_attempts)
      have "I s'" using step [OF less.prems True] it None by simp
      moreover have "nat (maxAttempts - int (attempts s')) < nat (maxAttempts - int (attempts st))"
        using a True by simp
      ultimately have "Q (fst (poll_loop remote scanID maxAttempts maxNull s'))
           (snd (poll_loop remote scanID maxAttempts maxNull s'))"
        using less.hyps by blast
      then show ?thesis
        using True it None by (subst (1 2) poll_loop.simps) simp
    next
      case (Some res)
      with ret [OF less.prems True] it have "Q res s'" by simp
      then show ?thesis
        using True it Some by (subst (1 2) poll_loop.simps) simp
    qed
  qed
qed

lemma outcomes_distinct:
  "Completed \<noteq> Cancelled" "Completed \<noteq> InitializationTimeout" "Completed \<noteq> MaxAttemptsReached"
  "Cancelled \<noteq> InitializationTimeout" "Cancelled \<noteq> MaxAttemptsReached"
  "InitializationTimeout \<noteq> MaxAttemptsReached"
  "Cancelled \<noteq> Completed" "InitializationTimeout \<noteq> Completed" "MaxAttemptsReached \<noteq> Completed"
  "InitializationTimeout \<noteq> Cancelled" "MaxAttemptsReached \<noteq> Cancelled"
  "MaxAttemptsReached \<noteq> InitializationTimeout"
  by (simp_all add: Completed_def Cancelled_def InitializationTimeout_def MaxAttemptsReached_def)

section \<open>The outcomes of a session\<close>

text \<open>
  Claim C9. \<open>Cancelled\<close> is never the outcome of the first observation: a session that
  returns \<open>Cancelled\<close> has made at least two attempts, since \<open>scanStarted\<close> starts false
  and only a \<open>Running\<close> observation of an earlier pass sets it.
\<close>

theorem cancelled_needs_two_attempts:
  assumes "pollUntilScanComplete remote scanID maxAttempts intervalMs initializationTimeoutMs = (Cancelled, st)"
  shows "2 \<le> attempts st"
proof -
  let ?run = "poll_loop remote scanID maxAttempts
                (maxConsecutiveNullResponses initializationTimeoutMs intervalMs) initial_state"
  have "fst ?run = Cancelled \<longrightarrow> 2 \<le> attempts (snd ?run)"
  proof (rule poll_loop_rule [where I = "\<lambda>s. scanStarted s \<longrightarrow> 1 \<le> attempts s"
                               and Q = "\<lambda>r s. r = Cancelled \<longrightarrow> 2 \<le> attempts s"])
    show "scanStarted initial_state \<longrightarrow> 1 \<le> attempts initial_state"
      by (simp add: initial_state_def)
  qed (auto simp: poll_iteration_observed outcomes_distinct split: observation.splits if_splits)
  with assms show ?thesis
    by (simp add: pollUntilScanComplete_def)
qed

theorem cancelled_needs_two_attempts_witness:
  "pollUntilScanComplete (scripted [Running, Indeterminate]) (JStr ''scan-1'') 5 1 3
     = (Cancelled, \<lparr>attempts = 2, consecutiveNullResponses = 1, scanStarted = True, probes = 2\<rparr>)
   \<and> 2 \<le> attempts \<lparr>attempts = 2, consecutiveNullResponses = 1, scanStarted = True, probes = 2\<rparr>"
proof -
  have run: "pollUntilScanComplete (scripted [Running, Indeterminate]) (JStr ''scan-1'') 5 1 3
     = (Cancelled, \<lparr>attempts = 2, consecutiveNullResponses = 1, scanStarted = True, probes = 2\<rparr>)"
    by code_simp
  from cancelled_needs_two_attempts [OF run] run show ?thesis
    by simp
qed



text \<open>
  Claim C4. A \<open>Finished\<close> observation ends the session at once with \<open>Completed\<close>. First
  for the loop resumed in any state with budget left (whatever \<open>scanStarted\<close> and
  \<open>consecutiveNullResponses\<close> are); then for a whole session: if the \<open>j\<close>-th observation
  made was \<open>Finished\<close>, the outcome is \<open>Completed\<close> and that observation was the last.
\<close>

theorem finished_completes:
  "(int (attempts s) < maxAttempts \<and> observed remote scanID (probes s) = Finished
      \<longrightarrow> poll_loop remote scanID maxAttempts maxNull s
            = (Completed, s\<lparr>attempts := attempts s + 1, probes := probes s + 1\<rparr>))
   \<and> (pollUntilScanComplete remote scanID maxAttempts intervalMs initializationTimeoutMs = (out, st)
        \<and> j < attempts st \<and> observed remote scanID j = Finished
      \<longrightarrow> out = Completed \<and> attempts st = j + 1)"
proof -
  let ?run = "poll_loop remote scanID maxAttempts
                (maxConsecutiveNullResponses initializationTimeoutMs intervalMs) initial_state"
  have one: "int (attempts s) < maxAttempts \<Longrightarrow> observed remote scanID (probes s) = Finished
      \<Longrightarrow> poll_loop remote scanID maxAttempts maxNull s
            = (Completed, s\<lparr>attempts := attempts s + 1, probes := probes s + 1\<rparr>)"
    by (subst poll_loop.simps) (simp add: poll_iteration_observed)
  have "\<forall>j < attempts (snd ?run). observed remote scanID j = Finished
          \<longrightarrow> fst ?run = Completed \<and> attempts (snd ?run) = j + 1"
  proof (rule poll_loop_rule [where
        I = "\<lambda>s. probes s = attempts s \<and> (\<forall>j < attempts s. observed remote scanID j \<noteq> Finished)"
        and Q = "\<lambda>r s. \<forall>j < attempts s. observed remote scanID j = Finished
                        \<longrightarrow> r = Completed \<and> attempts s = j + 1"])
    show "probes initial_state = attempts initial_state \<and>
      (\<forall>j<attempts initial_state. observed remote scanID j \<noteq> Finished)"
      by (simp add: initial_state_def)
  qed (auto simp: poll_iteration_observed less_Suc_eq split: observation.splits if_splits)
  then show ?thesis
    using one by (auto simp: pollUntilScanComplete_def)
qed

theorem finished_completes_witness:
  "int (attempts \<lparr>attempts = 1, consecutiveNullResponses = 0, scanStarted = True, probes = 1\<rparr>) < 5
   \<and> observed (scripted [Running, Finished]) (JStr ''scan-1'')
        (probes \<lparr>attempts = 1, consecutiveNullResponses = 0, scanStarted = True, probes = 1\<rparr>) = Finished
   \<and> poll_loop (scripted [Running, Finished]) (JStr ''scan-1'') 5 (Finite 3)
        \<lparr>attempts = 1, consecutiveNullResponses = 0, scanStarted = True, probes = 1\<rparr>
       = (Completed, \<lparr>attempts = 2, consecutiveNullResponses = 0, scanStarted = True, probes = 2\<rparr>)
   \<and> pollUntilScanComplete (scripted [Running, Finished]) (JStr ''scan-1'') 5 1 3
       = (Completed, \<lparr>attempts = 2, consecutiveNullResponses = 0, scanStarted = True, probes = 2\<rparr>)
   \<and> 1 < attempts \<lparr>attempts = 2, consecutiveNullResponses = 0, scanStarted = True, probes = 2\<rparr>
   \<and> observed (scripted [Running, Finished]) (JStr ''scan-1'') 1 = Finished
   \<and> attempts \<lparr>attempts = 2, consecutiveNullResponses = 0, scanStarted = True, probes = 2\<rparr> = 1 + 1"
proof -
  let ?s = "\<lparr>attempts = 1, consecutiveNullResponses = 0, scanStarted = True, probes = 1\<rparr>"
  let ?st = "\<lparr>attempts = 2, consecutiveNullResponses = 0, scanStarted = True, probes = 2\<rparr>"
  have ob: "observed (scripted [Running, Finished]) (JStr ''scan-1'') 1 = Finished"
    by code_simp
  have run: "pollUntilScanComplete (scripted [Running, Finished]) (JStr ''scan-1'') 5 1 3 = (Completed, ?st)"
    by code_simp
  from finished_completes [where s = ?s and maxAttempts = 5 and remote = "scripted [Running, Finished]"
      and scanID = "JStr ''scan-1''" and maxNull = "Finite 3" and intervalMs = 1
      and initializationTimeoutMs = 3 and out = Completed and st = ?st and j = 1] ob run
  show ?thesis
    by simp
qed

text \<open>
  Claim C1. Once a \<open>Running\<close> observation has been made, the next \<open>Indeterminate\<close> one
  ends the session at once with \<open>Cancelled\<close>. First for the loop resumed in any state with
  \<open>scanStarted\<close> set and budget left (whatever the counter and the threshold are); then
  for a whole session: if the \<open>j\<close>-th observation made was \<open>Indeterminate\<close> and an earlier
  one was \<open>Running\<close>, the outcome is \<open>Cancelled\<close> and the \<open>j\<close>-th observation was the last.
\<close>

theorem indeterminate_after_running_cancels:
  "(scanStarted s \<and> int (attempts s) < maxAttempts \<and> observed remote scanID (probes s) = Indeterminate
      \<longrightarrow> poll_loop remote scanID maxAttempts maxNull s
            = (Cancelled, s\<lparr>attempts := attempts s + 1, probes := probes s + 1,
                             consecutiveNullResponses := consecutiveNullResponses s + 1\<rparr>))
   \<and> (pollUntilScanComplete remote scanID maxAttempts intervalMs initializationTimeoutMs = (out, st)
        \<and> i < j \<and> j < attempts st
        \<and> observed remote scanID i = Running \<and> observed remote scanID j = Indeterminate
      \<longrightarrow> out = Cancelled \<and> attempts st = j + 1)"
proof -
  let ?limit = "maxConsecutiveNullResponses initializationTimeoutMs intervalMs"
  let ?run = "poll_loop remote scanID maxAttempts ?limit initial_state"
  let ?I = "\<lambda>s. probes s = attempts s
                \<and> (\<not> scanStarted s \<longrightarrow> (\<forall>i < attempts s. observed remote scanID i \<noteq> Running))
                \<and> (\<forall>i j. i < j \<and> j < attempts s \<and> observed remote scanID i = Running
                       \<longrightarrow> observed remote scanID j \<noteq> Indeterminate)"
  let ?Q = "\<lambda>r s. \<forall>i j. i < j \<and> j < attempts s
               \<and> observed remote scanID i = Running \<and> observed remote scanID j = Indeterminate
                        \<longrightarrow> r = Cancelled \<and> attempts s = j + 1"
  have one: "scanStarted s \<Longrightarrow> int (attempts s) < maxAttempts
      \<Longrightarrow> observed remote scanID (probes s) = Indeterminate
      \<Longrightarrow> poll_loop remote scanID maxAttempts maxNull s
            = (Cancelled, s\<lparr>attempts := attempts s + 1, probes := probes s + 1,
                             consecutiveNullResponses := consecutiveNullResponses s + 1\<rparr>)"
    by (subst poll_loop.simps) (simp add: poll_iteration_observed)
  have "?Q (fst ?run) (snd ?run)"
  proof (rule poll_loop_rule [where I = ?I and Q = ?Q])
    show "?I initial_state"
      by (simp add: initial_state_def)
  next
    fix s s' :: poll_state
    assume "?I s" and "poll_iteration remote scanID ?limit s = (None, s')"
    then show "?I s'"
      by (auto simp: poll_iteration_observed less_Suc_eq split: observation.splits if_splits)
  next
    fix s s' :: poll_state and r :: poll_result
    assume "?I s" and "poll_iteration remote scanID ?limit s = (Some r, s')"
    then show "?Q r s'"
      by (auto simp: poll_iteration_observed less_Suc_eq split: observation.splits if_splits)
  next
    fix s :: poll_state
    assume "?I s"
    then show "?Q MaxAttemptsReached s"
      by blast
  qed
  then show ?thesis
    using one by (auto simp: pollUntilScanComplete_def)
qed

theorem indeterminate_after_running_cancels_witness:
  "scanStarted \<lparr>attempts = 1, consecutiveNullResponses = 0, scanStarted = True, probes = 1\<rparr>
   \<and> int (attempts \<lparr>attempts = 1, consecutiveNullResponses = 0, scanStarted = True, probes = 1\<rparr>) < 5
   \<and> observed (scripted [Running, Indeterminate]) (JStr ''scan-1'')
        (probes \<lparr>attempts = 1, consecutiveNullResponses = 0, scanStarted = True, probes = 1\<rparr>) = Indeterminate
   \<and> poll_loop (scripted [Running, Indeterminate]) (JStr ''scan-1'') 5 (Finite 3)
        \<lparr>attempts = 1, consecutiveNullResponses = 0, scanStarted = True, probes = 1\<rparr>
       = (Cancelled, \<lparr>attempts = 2, consecutiveNullResponses = 1, scanStarted = True, probes = 2\<rparr>)
   \<and> pollUntilScanComplete (scripted [Running, Indeterminate]) (JStr ''scan-1'') 5 1 3
       = (Cancelled, \<lparr>attempts = 2, consecutiveNullResponses = 1, scanStarted = True, probes = 2\<rparr>)
   \<and> (0::nat) < 1
   \<and> 1 < attempts \<lparr>attempts = 2, consecutiveNullResponses = 1, scanStarted = True, probes = 2\<rparr>
   \<and> observed (scripted [Running, Indeterminate]) (JStr ''scan-1'') 0 = Running
   \<and> observed (scripted [Running, Indeterminate]) (JStr ''scan-1'') 1 = Indeterminate
   \<and> attempts \<lparr>attempts = 2, consecutiveNullResponses = 1, scanStarted = True, probes = 2\<rparr> = 1 + 1"
proof -
  let ?s = "\<lparr>attempts = 1, consecutiveNullResponses = 0, scanStarted = True, probes = 1\<rparr>"
  let ?st = "\<lparr>attempts = 2, consecutiveNullResponses = 1, scanStarted = True, probes = 2\<rparr>"
  have ob0: "observed (scripted [Running, Indeterminate]) (JStr ''scan-1'') 0 = Running"
    by code_simp
  have ob1: "observed (scripted [Running, Indeterminate]) (JStr ''scan-1'') 1 = Indeterminate"
    by code_simp
  have run: "pollUntilScanComplete (scripted [Running, Indeterminate]) (JStr ''scan-1'') 5 1 3 = (Cancelled, ?st)"
    by code_simp
  from indeterminate_after_running_cancels [where s = ?s and maxAttempts = 5
      and remote = "scripted [Running, Indeterminate]"
      and scanID = "JStr ''scan-1''" and maxNull = "Finite 3" and intervalMs = 1
      and initializationTimeoutMs = 3 and out = Cancelled and st = ?st and i = 0 and j = 1] ob0 ob1 run
  show ?thesis
    by simp
qed

subsection \<open>The probes a session issues\<close>

lemma poll_iteration_cong:
  "remote' (probes st) = remote (probes st) \<Longrightarrow>
   poll_iteration remote' scanID maxNull st = poll_iteration remote scanID maxNull st"
  by (simp add: poll_iteration_def)

lemma poll_iteration_probes:
  "poll_iteration remote scanID maxNull st = (r, st') \<Longrightarrow> probes st' = probes st + 1"
  by (auto simp: poll_iteration_def Let_def split: if_splits)

lemma poll_loop_probes_mono:
  "probes st \<le> probes (snd (poll_loop remote scanID maxAttempts maxNull st))"
proof (rule poll_loop_rule [where I = "\<lambda>s. probes st \<le> probes s" and Q = "\<lambda>r s. probes st \<le> probes s"])
  fix s s' assume "probes st \<le> probes s" "poll_iteration remote scanID maxNull s = (None, s')"
  then show "probes st \<le> probes s'"
    using poll_iteration_probes [of remote scanID maxNull s None s'] by simp
next
  fix s r s' assume "probes st \<le> probes s" "poll_iteration remote scanID maxNull s = (Some r, s')"
  then show "probes st \<le> probes s'"
    using poll_iteration_probes [of remote scanID maxNull s "Some r" s'] by simp
qed simp_all

text \<open>
  The loop reads the remote's answers only at the positions below its final number of
  probes: a remote that agrees with this one there gives the same run.
\<close>

lemma poll_loop_reads_prefix:
  assumes "\<forall>k < probes (snd (poll_loop remote scanID maxAttempts maxNull st)). remote' k = remote k"
  shows "poll_loop remote' scanID maxAttempts maxNull st = poll_loop remote scanID maxAttempts maxNull st"
  using assms
proof (induction "nat (maxAttempts - int (attempts st))" arbitrary: st rule: less_induct)
  case less
  show ?case
  proof (cases "int (attempts st) < maxAttempts")
    case False
    then show ?thesis
      by (subst (1 2) poll_loop.simps) simp
  next
    case True
    obtain r s' where it: "poll_iteration remote scanID maxNull st = (r, s')"
      by (cases "poll_iteration remote scanID maxNull st")
    have unfold: "poll_loop remote scanID maxAttempts maxNull st =
        (case r of Some res \<Rightarrow> (res, s') | None \<Rightarrow> poll_loop remote scanID maxAttempts maxNull s')"
      using True it by (subst poll_loop.simps) (simp split: option.splits)
    have p: "probes s' = probes st + 1"
      using it by (rule poll_iteration_probes)
    have "probes s' \<le> probes (snd (poll_loop remote scanID maxAttempts maxNull st))"
      using unfold poll_loop_probes_mono [of s' remote scanID maxAttempts maxNull]
      by (cases r) simp_all
    with p less.prems have "remote' (probes st) = remote (probes st)"
      by simp
    then have it': "poll_iteration remote' scanID maxNull st = (r, s')"
      using it poll_iteration_cong [where remote' = remote' and remote = remote and st = st]
      by simp
    have unfold': "poll_loop remote' scanID maxAttempts maxNull st =
        (case r of Some res \<Rightarrow> (res, s') | None \<Rightarrow> poll_loop remote' scanID maxAttempts maxNull s')"
      using True it' by (subst poll_loop.simps) (simp split: option.splits)
    show ?thesis
    proof (cases r)
      case (Some res)
      with unfold unfold' show ?thesis by simp
    next
      case None
      have "attempts s' = attempts st + 1"
        using it by (rule poll_iteration_attempts)
      then have m: "nat (maxAttempts - int (attempts s')) < nat (maxAttempts - int (attempts st))"
        using True by simp
      have "\<forall>k < probes (snd (poll_loop remote scanID maxAttempts maxNull s')). remote' k = remote k"
        using less.prems unfold None by simp
      from less.hyps [OF m this] unfold unfold' None show ?thesis
        by simp
    qed
  qed
qed

text \<open>
  Claim C8. Every session returns one of the four outcomes (the function is total and
  returns one value); when it returns, the number of status queries sent equals the
  number of attempts; and no answer of the remote beyond those is read: any remote that
  gives the same answers to these queries gives the same outcome and final state.
\<close>

theorem one_outcome_and_no_probe_after_it:
  assumes "pollUntilScanComplete remote scanID maxAttempts intervalMs initializationTimeoutMs = (out, st)"
  shows "out \<in> {Completed, Cancelled, InitializationTimeout, MaxAttemptsReached}
         \<and> probes st = attempts st
         \<and> (\<forall>remote'. (\<forall>k < probes st. remote' k = remote k) \<longrightarrow>
              pollUntilScanComplete remote' scanID maxAttempts intervalMs initializationTimeoutMs = (out, st))"
proof -
  let ?run = "poll_loop remote scanID maxAttempts
                (maxConsecutiveNullResponses initializationTimeoutMs intervalMs) initial_state"
  have run: "?run = (out, st)"
    using assms by (simp add: pollUntilScanComplete_def)
  have "fst ?run \<in> {Completed, Cancelled, InitializationTimeout, MaxAttemptsReached}
        \<and> probes (snd ?run) = attempts (snd ?run)"
  proof (rule poll_loop_rule [where I = "\<lambda>s. probes s = attempts s"
        and Q = "\<lambda>r s. r \<in> {Completed, Cancelled, InitializationTimeout, MaxAttemptsReached}
                       \<and> probes s = attempts s"])
    show "probes initial_state = attempts initial_state"
      by (simp add: initial_state_def)
  qed (auto simp: poll_iteration_observed split: observation.splits if_splits)
  moreover have "pollUntilScanComplete remote' scanID maxAttempts intervalMs initializationTimeoutMs = (out, st)"
    if "\<forall>k < probes st. remote' k = remote k" for remote'
    using poll_loop_reads_prefix [of remote scanID maxAttempts
        "maxConsecutiveNullResponses initializationTimeoutMs intervalMs" initial_state remote'] that run
    by (simp add: pollUntilScanComplete_def)
  ultimately show ?thesis
    using run by simp
qed

theorem one_outcome_and_no_probe_after_it_witness:
  "pollUntilScanComplete (scripted [Running, Finished]) (JStr ''scan-1'') 5 1 3
       = (Completed, \<lparr>attempts = 2, consecutiveNullResponses = 0, scanStarted = True, probes = 2\<rparr>)
   \<and> probes \<lparr>attempts = 2, consecutiveNullResponses = 0, scanStarted = True, probes = 2\<rparr>
       = attempts \<lparr>attempts = 2, consecutiveNullResponses = 0, scanStarted = True, probes = 2\<rparr>
   \<and> pollUntilScanComplete (scripted [Running, Finished, Indeterminate]) (JStr ''scan-1'') 5 1 3
       = (Completed, \<lparr>attempts = 2, consecutiveNullResponses = 0, scanStarted = True, probes = 2\<rparr>)"
proof -
  let ?st = "\<lparr>attempts = 2, consecutiveNullResponses = 0, scanStarted = True, probes = 2\<rparr>"
  have run: "pollUntilScanComplete (scripted [Running, Finished]) (JStr ''scan-1'') 5 1 3 = (Completed, ?st)"
    by code_simp
  have agree: "\<forall>k < probes ?st. scripted [Running, Finished, Indeterminate] k = scripted [Running, Finished] k"
    by (auto simp: scripted_def fun_eq_iff less_Suc_eq numeral_2_eq_2)
  from one_outcome_and_no_probe_after_it [OF run] agree run
  show ?thesis
    by simp
qed

subsection \<open>The counter of consecutive null responses\<close>

lemma observations_Suc:
  "observations remote scanID (Suc n) = observations remote scanID n @ [observed remote scanID n]"
  by (simp add: observations_def)

lemma null_suffix_snoc:
  "null_suffix (os @ [ob]) = (if ob = Indeterminate then null_suffix os + 1 else 0)"
  by (simp add: null_suffix_def)

text \<open>
  Claim C3, as stated, fails: a \<open>Finished\<close> observation returns at once (line 198) and
  leaves the counter as it was, so after \<open>Indeterminate, Finished\<close> the counter is 1 while
  the sequence ends with no \<open>Indeterminate\<close>.
\<close>

theorem counter_not_reset_by_finished:
  "consecutiveNullResponses (snd (pollUntilScanComplete (scripted [Indeterminate, Finished]) (JStr ''scan-1'') 5 1 3))
   \<noteq> null_suffix (observations (scripted [Indeterminate, Finished]) (JStr ''scan-1'')
        (attempts (snd (pollUntilScanComplete (scripted [Indeterminate, Finished]) (JStr ''scan-1'') 5 1 3))))"
  by code_simp

text \<open>
  Claim C3, amended. When a session returns, the number of attempts is the number of
  observations made. Unless the outcome is \<open>Completed\<close>, the counter is the length of
  the longest all-\<open>Indeterminate\<close> suffix of the observations made; when the outcome is
  \<open>Completed\<close>, it is that length for the observations before the final \<open>Finished\<close> one.
  In particular the counter is 0 when the last observation made was \<open>Running\<close>. Since
  the budget \<open>maxAttempts\<close> is arbitrary, this covers the state after every sequence of
  observations a session can process.
\<close>

theorem counter_is_null_suffix:
  assumes "pollUntilScanComplete remote scanID maxAttempts intervalMs initializationTimeoutMs = (out, st)"
  shows "attempts st = probes st
     \<and> consecutiveNullResponses st =
           null_suffix (if out = Completed then butlast (observations remote scanID (attempts st))
                        else observations remote scanID (attempts st))
     \<and> (0 < attempts st \<and> last (observations remote scanID (attempts st)) = Running \<longrightarrow>
          consecutiveNullResponses st = 0)"
proof -
  let ?run = "poll_loop remote scanID maxAttempts
                (maxConsecutiveNullResponses initializationTimeoutMs intervalMs) initial_state"
  let ?I = "\<lambda>s. attempts s = probes s
                \<and> consecutiveNullResponses s = null_suffix (observations remote scanID (attempts s))"
  let ?Q = "\<lambda>r s. attempts s = probes s
     \<and> (r \<noteq> Completed \<longrightarrow>
          consecutiveNullResponses s = null_suffix (observations remote scanID (attempts s)))
     \<and> (r = Completed \<longrightarrow>
          consecutiveNullResponses s = null_suffix (butlast (observations remote scanID (attempts s))))"
  have "?Q (fst ?run) (snd ?run)"
  proof (rule poll_loop_rule [where I = ?I and Q = ?Q])
    show "?I initial_state"
      by (simp add: initial_state_def observations_def null_suffix_def)
  qed (auto simp: poll_iteration_observed observations_Suc null_suffix_snoc outcomes_distinct
            split: observation.splits if_splits)
  with assms have q: "?Q out st"
    by (simp add: pollUntilScanComplete_def)
  have "consecutiveNullResponses st = 0"
    if pos: "0 < attempts st" and lst: "last (observations remote scanID (attempts st)) = Running"
  proof -
    obtain n where n: "attempts st = Suc n"
      using pos by (auto simp: gr0_conv_Suc)
    with lst have l: "observed remote scanID n = Running"
      by (simp add: observations_Suc)
    have "out \<noteq> Completed"
    proof
      assume c: "out = Completed"
      have "fst ?run = Completed \<longrightarrow>
              0 < attempts (snd ?run) \<and> observed remote scanID (attempts (snd ?run) - 1) = Finished"
        by (rule poll_loop_rule [where I = "\<lambda>s. attempts s = probes s"
             and Q = "\<lambda>r s. r = Completed \<longrightarrow>
                        0 < attempts s \<and> observed remote scanID (attempts s - 1) = Finished"])
           (auto simp: initial_state_def poll_iteration_observed outcomes_distinct
                 split: observation.splits if_splits)
      with assms c n l show False
        by (simp add: pollUntilScanComplete_def)
    qed
    with q n l show ?thesis
      by (simp add: observations_Suc null_suffix_snoc)
  qed
  with q show ?thesis
    by simp
qed

theorem counter_is_null_suffix_witness:
  "pollUntilScanComplete (scripted [Indeterminate, Finished]) (JStr ''scan-1'') 5 1 3
       = (Completed, \<lparr>attempts = 2, consecutiveNullResponses = 1, scanStarted = False, probes = 2\<rparr>)
   \<and> null_suffix (butlast (observations (scripted [Indeterminate, Finished]) (JStr ''scan-1'') 2)) = 1
   \<and> pollUntilScanComplete (scripted [Indeterminate, Running]) (JStr ''scan-1'') 2 1 3
       = (MaxAttemptsReached, \<lparr>attempts = 2, consecutiveNullResponses = 0, scanStarted = True, probes = 2\<rparr>)
   \<and> 0 < attempts \<lparr>attempts = 2, consecutiveNullResponses = 0, scanStarted = True, probes = 2\<rparr>
   \<and> last (observations (scripted [Indeterminate, Running]) (JStr ''scan-1'') 2) = Running
   \<and> null_suffix (observations (scripted [Indeterminate, Running]) (JStr ''scan-1'') 2) = 0"
proof -
  let ?c = "\<lparr>attempts = 2, consecutiveNullResponses = 1, scanStarted = False, probes = 2\<rparr>"
  let ?m = "\<lparr>attempts = 2, consecutiveNullResponses = 0, scanStarted = True, probes = 2\<rparr>"
  have run1: "pollUntilScanComplete (scripted [Indeterminate, Finished]) (JStr ''scan-1'') 5 1 3 = (Completed, ?c)"
    by code_simp
  have run2: "pollUntilScanComplete (scripted [Indeterminate, Running]) (JStr ''scan-1'') 2 1 3
                = (MaxAttemptsReached, ?m)"
    by code_simp
  have l: "last (observations (scripted [Indeterminate, Running]) (JStr ''scan-1'') 2) = Running"
    by code_simp
  from counter_is_null_suffix [OF run1] counter_is_null_suffix [OF run2] run1 run2 l
  show ?thesis
    by (simp add: outcomes_distinct)
qed

subsection \<open>The initialization timeout\<close>



section \<open>The status probe and the gate\<close>

lemma get_prop_opt_prop: "get_prop v k = Inr x \<Longrightarrow> opt_prop v k = x"
  by (cases v) auto


lemma foldl_opt_prop_undefined: "foldl opt_prop JUndefined ks = JUndefined"
  by (induction ks) auto

text \<open>A chain of optional reads is the plain lookup of the path, with \<^verbatim>\<open>undefined\<close> for a miss.\<close>

lemma opt_prop_path:
  "ks \<noteq> [] \<Longrightarrow> foldl opt_prop v ks = (case json_path v ks of None \<Rightarrow> JUndefined | Some x \<Rightarrow> x)"
proof (induction v ks rule: json_path.induct)
  case (2 kvs k ks)
  then show ?case
    by (cases ks) (auto simp: foldl_opt_prop_undefined split: option.splits)
qed (auto simp: foldl_opt_prop_undefined)

lemma status_try_value:
  "checkScanningStatus_try fetch scanID = Inr r \<Longrightarrow>
   \<exists>code data. fetch scanID = HttpResponse code (Parsed data) \<and> response_ok code
     \<and> r = \<lparr>isStillScanning =
                nullish (foldl opt_prop data [''data'', ''getScannedAppsInfo'', ''isStillScanning'']) JNull,
              error = None\<rparr>"
  by (auto simp: checkScanningStatus_try_def dest: get_prop_opt_prop
           split: response.splits body.splits sum.splits if_splits)

lemma nullish_defined: "nullish v JNull \<noteq> JNull \<Longrightarrow> nullish v JNull = v"
  by (cases v) auto

text \<open>
  Claim C6. A status probe returns a result for every job identifier and every behaviour
  of the remote: each error raised inside the \<^verbatim>\<open>try\<close> block is caught and returned as
  \<^verbatim>\<open>isStillScanning: null\<close> with the error attached. The result is \<^verbatim>\<open>null\<close> after a transport
  failure, an HTTP error status, an unparsable body, and a body in which the path
  \<^verbatim>\<open>data.getScannedAppsInfo.isStillScanning\<close> is absent, \<^verbatim>\<open>null\<close> or \<^verbatim>\<open>undefined\<close>. Conversely,
  a result other than \<^verbatim>\<open>null\<close> is the value found at that path of an HTTP-ok response.
\<close>

theorem status_probe_failures_are_indeterminate:
  "(\<forall>e. checkScanningStatus_try fetch scanID = Inl e \<longrightarrow>
         checkScanningStatus fetch scanID = \<lparr>isStillScanning = JNull, error = Some e\<rparr>)
   \<and> (\<forall>msg. fetch scanID = NetworkError msg \<longrightarrow>
         isStillScanning (checkScanningStatus fetch scanID) = JNull)
   \<and> (\<forall>code b. fetch scanID = HttpResponse code b \<and> \<not> response_ok code \<longrightarrow>
         isStillScanning (checkScanningStatus fetch scanID) = JNull)
   \<and> (\<forall>code msg. fetch scanID = HttpResponse code (Unparsable msg) \<longrightarrow>
         isStillScanning (checkScanningStatus fetch scanID) = JNull)
   \<and> (\<forall>code data. fetch scanID = HttpResponse code (Parsed data)
          \<and> json_path data [''data'', ''getScannedAppsInfo'', ''isStillScanning'']
               \<in> {None, Some JNull, Some JUndefined} \<longrightarrow>
         isStillScanning (checkScanningStatus fetch scanID) = JNull)
   \<and> (isStillScanning (checkScanningStatus fetch scanID) \<noteq> JNull \<longrightarrow>
         (\<exists>code data. fetch scanID = HttpResponse code (Parsed data) \<and> response_ok code
            \<and> json_path data [''data'', ''getScannedAppsInfo'', ''isStillScanning'']
                 = Some (isStillScanning (checkScanningStatus fetch scanID))))"
proof -
  let ?path = "[''data'', ''getScannedAppsInfo'', ''isStillScanning'']"
  let ?v = "isStillScanning (checkScanningStatus fetch scanID)"
  have caught: "checkScanningStatus fetch scanID = \<lparr>isStillScanning = JNull, error = Some e\<rparr>"
    if "checkScanningStatus_try fetch scanID = Inl e" for e
    using that by (simp add: checkScanningStatus_def)
  have obtained: "\<exists>code data. fetch scanID = HttpResponse code (Parsed data) \<and> response_ok code
            \<and> json_path data ?path = Some ?v"
    if nonnull: "?v \<noteq> JNull"
  proof (cases "checkScanningStatus_try fetch scanID")
    case (Inl e)
    with caught nonnull show ?thesis by simp
  next
    case (Inr r)
    then obtain code data where f: "fetch scanID = HttpResponse code (Parsed data)"
      and ok: "response_ok code"
      and r: "r = \<lparr>isStillScanning = nullish (foldl opt_prop data ?path) JNull, error = None\<rparr>"
      using status_try_value by blast
    from Inr r have v: "?v = nullish (foldl opt_prop data ?path) JNull"
      by (simp add: checkScanningStatus_def)
    with nonnull have eq: "?v = foldl opt_prop data ?path"
      using nullish_defined [of "foldl opt_prop data ?path"] by simp
    with nonnull v have "foldl opt_prop data ?path \<noteq> JUndefined"
      by auto
    with eq have "json_path data ?path = Some ?v"
      using opt_prop_path [of ?path data] by (cases "json_path data ?path") simp_all
    with f ok show ?thesis by blast
  qed
  have net: "?v = JNull" if "fetch scanID = NetworkError msg" for msg
    using that by (simp add: checkScanningStatus_def checkScanningStatus_try_def)
  have http: "?v = JNull" if "fetch scanID = HttpResponse code b" and "\<not> response_ok code" for code b
    using that by (simp add: checkScanningStatus_def checkScanningStatus_try_def)
  have unparsable: "?v = JNull" if "fetch scanID = HttpResponse code (Unparsable msg)" for code msg
    using that by (simp add: checkScanningStatus_def checkScanningStatus_try_def)
  have absent: "?v = JNull"
    if f: "fetch scanID = HttpResponse code (Parsed data)"
      and p: "json_path data ?path \<in> {None, Some JNull, Some JUndefined}" for code data
  proof (cases "checkScanningStatus_try fetch scanID")
    case (Inl e)
    with caught show ?thesis by simp
  next
    case (Inr r)
    from status_try_value [OF Inr] f
    have "r = \<lparr>isStillScanning = nullish (foldl opt_prop data ?path) JNull, error = None\<rparr>"
      by auto
    with Inr have v: "?v = nullish (foldl opt_prop data ?path) JNull"
      by (simp add: checkScanningStatus_def)
    have "foldl opt_prop data ?path = JNull \<or> foldl opt_prop data ?path = JUndefined"
      using p opt_prop_path [of ?path data] by auto
    with v show ?thesis
      by auto
  qed
  show ?thesis
    by (intro conjI allI impI; (elim conjE)?;
        (rule caught net http unparsable absent obtained; assumption))
qed

theorem status_probe_failures_are_indeterminate_witness:
  "checkScanningStatus (always (NetworkError ''connection refused'')) (JStr ''scan-1'')
     = \<lparr>isStillScanning = JNull, error = Some (FetchFailed ''connection refused'')\<rparr>
   \<and> \<not> response_ok 500
   \<and> isStillScanning (checkScanningStatus (always (HttpResponse 500 (Parsed JNull))) (JStr ''scan-1'')) = JNull
   \<and> isStillScanning (checkScanningStatus (always (HttpResponse 200 (Unparsable ''<html>''))) (JStr ''scan-1'')) = JNull
   \<and> json_path JNull [''data'', ''getScannedAppsInfo'', ''isStillScanning''] = None
   \<and> isStillScanning (checkScanningStatus (always (HttpResponse 200 (Parsed JNull))) (JStr ''scan-1'')) = JNull
   \<and> isStillScanning (checkScanningStatus (always (answer Running)) (JStr ''scan-1'')) = JBool True
   \<and> JBool True \<noteq> JNull
   \<and> response_ok 200
   \<and> json_path (JObj [(''data'', JObj [(''getScannedAppsInfo'', JObj [(''isStillScanning'', JBool True)])])])
        [''data'', ''getScannedAppsInfo'', ''isStillScanning''] = Some (JBool True)"
proof -
  let ?id = "JStr ''scan-1''"
  have e1: "checkScanningStatus_try (always (NetworkError ''connection refused'')) ?id
              = Inl (FetchFailed ''connection refused'')"
    by (simp add: checkScanningStatus_try_def always_def)
  have f1: "always (NetworkError ''connection refused'') ?id = NetworkError ''connection refused''"
    and f2: "always (HttpResponse 500 (Parsed JNull)) ?id = HttpResponse 500 (Parsed JNull)"
    and f3: "always (HttpResponse 200 (Unparsable ''<html>'')) ?id = HttpResponse 200 (Unparsable ''<html>'')"
    and f4: "always (HttpResponse 200 (Parsed JNull)) ?id = HttpResponse 200 (Parsed JNull)"
    by (simp_all add: always_def)
  have nok: "\<not> response_ok 500" and ok: "response_ok 200"
    by (simp_all add: response_ok_def)
  have p4: "json_path JNull [''data'', ''getScannedAppsInfo'', ''isStillScanning''] = None"
    by simp
  have r: "isStillScanning (checkScanningStatus (always (answer Running)) ?id) = JBool True"
    by code_simp
  from status_probe_failures_are_indeterminate [of "always (NetworkError ''connection refused'')" ?id]
       status_probe_failures_are_indeterminate [of "always (HttpResponse 500 (Parsed JNull))" ?id]
       status_probe_failures_are_indeterminate [of "always (HttpResponse 200 (Unparsable ''<html>''))" ?id]
       status_probe_failures_are_indeterminate [of "always (HttpResponse 200 (Parsed JNull))" ?id]
       status_probe_failures_are_indeterminate [of "always (answer Running)" ?id]
       e1 f1 f2 f3 f4 nok ok p4 r
  show ?thesis
    by (simp add: always_def status_body_def)
qed



text \<open>
  Claim C7 at a GraphQL error reply (HTTP 200 with \<^verbatim>\<open>data: null\<close>): whether a scan is
  active cannot be told from it, yet the gate returns \<^verbatim>\<open>undefined\<close>, and \<^verbatim>\<open>main\<close> starts a
  new scan and polls it.
\<close>

theorem gate_proceeds_on_graphql_error:
  "checkScanInProgress graphql_error_response = JUndefined
   \<and> main \<lparr>gate_response = graphql_error_response,
            start_response = scan_started_response (JStr ''scan-1''),
            status_responses = scripted [Finished]\<rparr> 100 30000 300000
       = Polled (JStr ''scan-1'') Completed"
  by code_simp

text \<open>The errors the gate does catch make it return \<^verbatim>\<open>true\<close>.\<close>

lemma gate_fail_safe_on_errors:
  "checkScanInProgress_try fetched = Inl e \<Longrightarrow> checkScanInProgress fetched = JBool True"
  by (simp add: checkScanInProgress_def)

end
